theory Spec2Isabelle
  imports Main "HOL-Library.Word"
begin

section \<open>Go library functions used by the server\<close>

text \<open>
  Strings are byte sequences, as Go's are.  The functions below follow the Go standard
  library (\<^verbatim>\<open>strings.Split\<close>, \<^verbatim>\<open>strings.Trim\<close>, \<^verbatim>\<open>path.Clean\<close>,
  \<^verbatim>\<open>path.Join\<close>); on ASCII input bytes and code points coincide.
\<close>

text \<open>\<^verbatim>\<open>strings.Split(s, "/")\<close>: the pieces between the separators; one more piece than
  there are separators, so never an empty slice.\<close>

fun Split :: "string \<Rightarrow> char \<Rightarrow> string list" where
  "Split [] sep = [[]]"
| "Split (c # cs) sep =
     (if c = sep then [] # Split cs sep
      else (case Split cs sep of [] \<Rightarrow> [[c]] | t # ts \<Rightarrow> (c # t) # ts))"

text \<open>\<^verbatim>\<open>strings.Trim(s, cutset)\<close>: strips from both ends every character that occurs
  anywhere in \<open>cutset\<close> (a set of characters, not a prefix).\<close>

definition Trim :: "string \<Rightarrow> string \<Rightarrow> string" where
  "Trim s cutset =
     rev (dropWhile (\<lambda>c. c \<in> set cutset) (rev (dropWhile (\<lambda>c. c \<in> set cutset) s)))"

text \<open>\<^verbatim>\<open>path.Clean\<close>: \<open>out\<close> is the output buffer, \<open>dotdot\<close> the length below which
  a \<^verbatim>\<open>..\<close> element may not backtrack, \<open>xs\<close> the unread rest of the path.\<close>

fun backtrack :: "nat \<Rightarrow> string \<Rightarrow> nat \<Rightarrow> string" where
  "backtrack dotdot out w =
     (if dotdot < w \<and> out ! w \<noteq> CHR ''/'' then backtrack dotdot out (w - 1) else take w out)"

function clean_loop :: "bool \<Rightarrow> nat \<Rightarrow> string \<Rightarrow> string \<Rightarrow> string" where
  "clean_loop rooted dotdot out [] = out"
| "clean_loop rooted dotdot out (c # r1) =
     (if c = CHR ''/'' then clean_loop rooted dotdot out r1
      else if c = CHR ''.'' \<and> (r1 = [] \<or> hd r1 = CHR ''/'') then clean_loop rooted dotdot out r1
      else if c = CHR ''.'' \<and> hd r1 = CHR ''.'' \<and> (tl r1 = [] \<or> hd (tl r1) = CHR ''/'') then
        (if dotdot < length out then
           clean_loop rooted dotdot (backtrack dotdot out (length out - 1)) (tl r1)
         else if \<not> rooted then
           (let out' = (if 0 < length out then out @ ''/'' else out) @ ''..''
            in clean_loop rooted (length out') out' (tl r1))
         else clean_loop rooted dotdot out (tl r1))
      else
        (let out' = (if (rooted \<and> length out \<noteq> 1) \<or> (\<not> rooted \<and> length out \<noteq> 0)
                     then out @ ''/'' else out)
         in clean_loop rooted dotdot (out' @ c # takeWhile (\<lambda>x. x \<noteq> CHR ''/'') r1)
              (dropWhile (\<lambda>x. x \<noteq> CHR ''/'') r1)))"
  by pat_completeness auto
termination
  by (relation "measure (\<lambda>(rooted, dotdot, out, xs). length xs)")
     (auto intro: le_imp_less_Suc length_dropWhile_le simp: less_Suc_eq_le)

declare backtrack.simps [simp del]

definition Clean :: "string \<Rightarrow> string" where
  "Clean p =
     (if p = [] then ''.''
      else let rooted = (hd p = CHR ''/'');
               out = (if rooted then clean_loop True 1 ''/'' (tl p) else clean_loop False 0 [] p)
           in if out = [] then ''.'' else out)"

text \<open>\<^verbatim>\<open>path.Join\<close>: leading empty elements are dropped, the rest is joined with
  slashes and cleaned; no non-empty element gives the empty string.\<close>

fun join_slash :: "string list \<Rightarrow> string" where
  "join_slash [] = []"
| "join_slash [e] = e"
| "join_slash (e # es) = e @ ''/'' @ join_slash es"

definition Join :: "string list \<Rightarrow> string" where
  "Join elem =
     (case dropWhile (\<lambda>e. e = []) elem of [] \<Rightarrow> [] | es \<Rightarrow> Clean (join_slash es))"

section \<open>The record store\<close>

text \<open>A row of table \<^verbatim>\<open>records\<close> (Go type \<^verbatim>\<open>record\<close>); \<open>MTime\<close> is a \<^verbatim>\<open>uint32\<close>.\<close>

record db_record =
  ID :: string
  Path :: string
  Checksum :: string
  ETag :: string
  MTime :: "32 word"

text \<open>
  What a Go call leaves behind: a returned value, or a run-time panic.  The operations
  return \<open>Return None\<close> for a nil error and \<open>Return (Some e)\<close> for the error \<open>e\<close>.
\<close>

datatype error = unauthenticatedError | RecordNotFound | storeError

datatype 'a outcome = Return 'a | Panic

text \<open>
  The server's database handle \<^verbatim>\<open>s.db\<close>.  \<open>rows\<close> is the committed content of the
  table, in primary-key order.  \<open>faults\<close> is the failure schedule of the storage engine:
  every statement sent to the store takes the next entry, and \<open>True\<close> makes that
  statement fail without effect; an exhausted schedule means no further failure.
\<close>

record server =
  rows :: "db_record list"
  faults :: "bool list"

definition next_fault :: "server \<Rightarrow> bool \<times> server" where
  "next_fault s = (case faults s of [] \<Rightarrow> (False, s) | f # fs \<Rightarrow> (f, s\<lparr>faults := fs\<rparr>))"

text \<open>
  The SQL operator \<^verbatim>\<open>LIKE\<close> as MySQL evaluates it under a binary collation:
  \<^verbatim>\<open>%\<close> stands for any run of characters, \<^verbatim>\<open>_\<close> for any single one, and a backslash
  takes the next pattern character literally.
\<close>

function sql_like :: "string \<Rightarrow> string \<Rightarrow> bool" where
  "sql_like [] s = (s = [])"
| "sql_like (c # pat) s =
     (if c = CHR ''%'' then
        sql_like pat s \<or> (case s of [] \<Rightarrow> False | _ # s' \<Rightarrow> sql_like (c # pat) s')
      else if c = CHR ''_'' then
        (case s of [] \<Rightarrow> False | _ # s' \<Rightarrow> sql_like pat s')
      else if c = CHR 0x5C \<and> pat \<noteq> [] then
        (case s of [] \<Rightarrow> False | x # s' \<Rightarrow> x = hd pat \<and> sql_like (tl pat) s')
      else
        (case s of [] \<Rightarrow> False | x # s' \<Rightarrow> x = c \<and> sql_like pat s'))"
  by pat_completeness auto
termination
  by (relation "measure (\<lambda>(pat, s). length pat + length s)") auto

text \<open>
  gorm's \<^verbatim>\<open>Updates\<close> with a struct argument writes only the fields that are not the
  zero value of their type.
\<close>

definition Updates :: "string \<Rightarrow> 32 word \<Rightarrow> string \<Rightarrow> db_record \<Rightarrow> db_record" where
  "Updates etag mtime newPath r =
     r\<lparr>ETag := (if etag = [] then ETag r else etag),
       MTime := (if mtime = 0 then MTime r else mtime),
       Path := (if newPath = [] then Path r else newPath)\<rparr>"

text \<open>
  A transaction handle returned by \<^verbatim>\<open>s.db.Begin()\<close>: the writes issued through the
  handle and not yet committed.  \<^verbatim>\<open>Begin\<close> clones the database handle, so statements
  sent through \<^verbatim>\<open>s.db\<close> itself are committed at once and are no part of the transaction.
\<close>

type_synonym tx = "(db_record list \<Rightarrow> db_record list) list"

definition Begin :: "server \<Rightarrow> tx" where
  "Begin s = []"

definition Commit :: "tx \<Rightarrow> server \<Rightarrow> server" where
  "Commit t s = s\<lparr>rows := fold (\<lambda>w. w) t (rows s)\<rparr>"

definition Rollback :: "tx \<Rightarrow> server \<Rightarrow> server" where
  "Rollback t s = s"

section \<open>The server\<close>

text \<open>
  A failing query leaves the result slice empty; the error is logged and nil is returned in
  its place.
\<close>

definition getRecordsWithPathPrefix :: "server \<Rightarrow> string \<Rightarrow> server \<times> db_record list \<times> error option" where
  "getRecordsWithPathPrefix s p =
     (let (f, s1) = next_fault s
      in if f then (s1, [], None)
         else (s1, filter (\<lambda>r. sql_like (p @ ''%'') (Path r)) (rows s1), None))"

definition getByPath :: "server \<Rightarrow> string \<Rightarrow> server \<times> db_record \<times> error option" where
  "getByPath s p =
     (let (f, s1) = next_fault s;
          r0 = \<lparr>ID = [], Path = [], Checksum = [], ETag = [], MTime = 0\<rparr>
      in if f then (s1, r0, Some storeError)
         else (case filter (\<lambda>r. Path r = p) (rows s1) of
                 [] \<Rightarrow> (s1, r0, Some RecordNotFound)
               | r # _ \<Rightarrow> (s1, r, None)))"

text \<open>
  Modelled from the spec: the unique keys of table \<^verbatim>\<open>records\<close> (the declaration of type
  \<^verbatim>\<open>record\<close> is not among the sources).  A row with the same id or the same path is a
  duplicate; the first such row gets the new checksum, etag and mtime and keeps its id and
  path.  Without a duplicate the row is added.
\<close>

fun upsert_row :: "db_record \<Rightarrow> db_record list \<Rightarrow> db_record list" where
  "upsert_row n [] = [n]"
| "upsert_row n (r # rs) =
     (if ID r = ID n \<or> Path r = Path n
      then r\<lparr>Checksum := Checksum n, ETag := ETag n, MTime := MTime n\<rparr> # rs
      else r # upsert_row n rs)"

definition insert_row :: "server \<Rightarrow> string \<Rightarrow> string \<Rightarrow> string \<Rightarrow> string \<Rightarrow> 32 word \<Rightarrow> server \<times> error option" where
  "insert_row s i p checksum etag mtime =
     (let (f, s1) = next_fault s
      in if f then (s1, Some storeError)
         else (s1\<lparr>rows := upsert_row \<lparr>ID = i, Path = p, Checksum = checksum, ETag = etag, MTime = mtime\<rparr> (rows s1)\<rparr>,
               None))"

definition update :: "server \<Rightarrow> string \<Rightarrow> string \<Rightarrow> 32 word \<Rightarrow> server \<times> nat" where
  "update s p etag mtime =
     (let (f, s1) = next_fault s
      in if f then (s1, 0)
         else (s1\<lparr>rows := map (\<lambda>r. if Path r = p \<and> MTime r < mtime then Updates etag mtime [] r else r) (rows s1)\<rparr>,
               length (filter (\<lambda>r. Path r = p \<and> MTime r < mtime) (rows s1))))"

text \<open>
  getPathsTillHome slices \<^verbatim>\<open>tokens[0:5]\<close>: with fewer than five tokens this is a
  run-time panic (slice bounds out of range).
\<close>

fun paths_loop :: "string \<Rightarrow> string list \<Rightarrow> string list" where
  "paths_loop previous [] = []"
| "paths_loop previous (token # restTokens) =
     (let previous' = Join [previous, Clean token]
      in previous' # paths_loop previous' restTokens)"

definition getPathsTillHome :: "string \<Rightarrow> string list outcome" where
  "getPathsTillHome p =
     (let tokens = Split p CHR ''/''
      in if length tokens < 5 then Panic
         else let homeTokens = take 5 tokens;
                  restTokens = drop 5 tokens;
                  home = Clean (''/'' @ Join homeTokens)
              in Return (home # paths_loop home restTokens))"

text \<open>
  propagateChanges never uses its parameter \<^verbatim>\<open>stopPath\<close>, which is left out, and always
  returns a nil error.  Log calls have no effect on the store and are not modelled.
\<close>

definition propagateChanges :: "server \<Rightarrow> string \<Rightarrow> string \<Rightarrow> 32 word \<Rightarrow> server \<times> error option outcome" where
  "propagateChanges s p etag mtime =
     (case getPathsTillHome p of
        Panic \<Rightarrow> (s, Panic)
      | Return paths \<Rightarrow> (fold (\<lambda>q s'. fst (update s' q etag mtime)) paths s, Return None))"

text \<open>
  The requests.  \<open>verify\<close> stands for \<^verbatim>\<open>lib.ParseToken\<close> with the server's shared
  secret: whether the access token parses.  The values of \<^verbatim>\<open>uuid.New()\<close> and
  \<^verbatim>\<open>time.Now().Unix()\<close> (an \<^verbatim>\<open>int64\<close>) are arguments.
\<close>

record MvReq =
  mv_AccessToken :: string
  Src :: string
  Dst :: string

record RmReq =
  rm_AccessToken :: string
  rm_Path :: string

record PutReq =
  put_AccessToken :: string
  put_Path :: string
  put_Checksum :: string

definition update_by_id :: "server \<Rightarrow> string \<Rightarrow> string \<Rightarrow> 32 word \<Rightarrow> string \<Rightarrow> server \<times> error option" where
  "update_by_id s i etag mtime newPath =
     (let (f, s1) = next_fault s
      in if f then (s1, Some storeError)
         else (s1\<lparr>rows := map (\<lambda>r. if ID r = i then Updates etag mtime newPath r else r) (rows s1)\<rparr>, None))"

text \<open>
  The loop of Mv over the matched records.  Each update goes through \<^verbatim>\<open>s.db\<close>; on the
  first failing update the transaction \<open>t\<close> is rolled back and the error returned.
\<close>

fun mv_loop :: "tx \<Rightarrow> string \<Rightarrow> 32 word \<Rightarrow> string \<Rightarrow> string \<Rightarrow> db_record list \<Rightarrow> server \<Rightarrow> server \<times> error option" where
  "mv_loop t etag mtime src dst [] s = (s, None)"
| "mv_loop t etag mtime src dst (rec # recs) s =
     (let newPath = Join [dst, Clean (Trim (Path rec) src)]
      in case update_by_id s (ID rec) etag mtime newPath of
           (s1, Some err) \<Rightarrow> (Rollback t s1, Some err)
         | (s1, None) \<Rightarrow> mv_loop t etag mtime src dst recs s1)"

definition Mv :: "(string \<Rightarrow> bool) \<Rightarrow> server \<Rightarrow> MvReq \<Rightarrow> string \<Rightarrow> 64 word \<Rightarrow> server \<times> error option outcome" where
  "Mv verify s req uuid now =
     (if \<not> verify (mv_AccessToken req) then (s, Return (Some unauthenticatedError))
      else let src = Clean (Src req);
               dst = Clean (Dst req);
               (s1, recs, err) = getRecordsWithPathPrefix s src
           in if err \<noteq> None then (s1, Return None)
              else let etag = uuid;
                       mtime = (ucast now :: 32 word);
                       t = Begin s1
                   in case mv_loop t etag mtime src dst recs s1 of
                        (s2, Some e) \<Rightarrow> (s2, Return (Some e))
                      | (s2, None) \<Rightarrow>
                          (case propagateChanges (Commit t s2) dst etag mtime of
                             (s3, Panic) \<Rightarrow> (s3, Panic)
                           | (s3, Return _) \<Rightarrow> (s3, Return None)))"

definition Rm :: "(string \<Rightarrow> bool) \<Rightarrow> server \<Rightarrow> RmReq \<Rightarrow> string \<Rightarrow> 64 word \<Rightarrow> server \<times> error option outcome" where
  "Rm verify s req uuid ts =
     (if \<not> verify (rm_AccessToken req) then (s, Return (Some unauthenticatedError))
      else let p = Clean (rm_Path req);
               (f, s1) = next_fault s
           in if f then (s1, Return (Some storeError))
              else let s2 = s1\<lparr>rows := filter (\<lambda>r. \<not> (sql_like (p @ ''%'') (Path r) \<and> uint (MTime r) < sint ts)) (rows s1)\<rparr>
                   in case propagateChanges s2 p uuid (ucast ts) of
                        (s3, Panic) \<Rightarrow> (s3, Panic)
                      | (s3, Return _) \<Rightarrow> (s3, Return None))"

definition Put :: "(string \<Rightarrow> bool) \<Rightarrow> server \<Rightarrow> PutReq \<Rightarrow> string \<Rightarrow> string \<Rightarrow> 64 word \<Rightarrow> server \<times> error option outcome" where
  "Put verify s req uuid_etag uuid_id now =
     (if \<not> verify (put_AccessToken req) then (s, Return (Some unauthenticatedError))
      else let p = Clean (put_Path req);
               etag = uuid_etag;
               mtime = (ucast now :: 32 word)
           in case getByPath s p of
                (s1, r, Some err) \<Rightarrow>
                  if err = RecordNotFound then
                    (case insert_row s1 uuid_id p (put_Checksum req) etag mtime of
                       (s2, Some e) \<Rightarrow> (s2, Return (Some e))
                     | (s2, None) \<Rightarrow>
                         (case propagateChanges s2 p etag mtime of
                            (s3, Panic) \<Rightarrow> (s3, Panic)
                          | (s3, Return _) \<Rightarrow> (s3, Return None)))
                  else (s1, Return (Some err))
              | (s1, r, None) \<Rightarrow>
                  (case insert_row s1 (ID r) p (put_Checksum req) etag mtime of
                     (s2, Some e) \<Rightarrow> (s2, Return (Some e))
                   | (s2, None) \<Rightarrow>
                       (case propagateChanges s2 p etag mtime of
                          (s3, Panic) \<Rightarrow> (s3, Panic)
                        | (s3, Return _) \<Rightarrow> (s3, Return None))))"

section \<open>Facts about the store primitives\<close>

lemma next_fault_rows [simp]: "rows (snd (next_fault s)) = rows s"
  by (simp add: next_fault_def split: list.splits)

lemma next_fault_faults [simp]: "faults (snd (next_fault s)) = tl (faults s)"
  by (simp add: next_fault_def split: list.splits)

lemma next_fault_fst: "fst (next_fault s) = (faults s \<noteq> [] \<and> hd (faults s))"
  by (simp add: next_fault_def split: list.splits)

lemma update_rows:
  "rows (fst (update s p etag mtime)) =
     (if fst (next_fault s) then rows s
      else map (\<lambda>r. if Path r = p \<and> MTime r < mtime then Updates etag mtime [] r else r) (rows s))"
  by (cases "next_fault s") (use next_fault_rows [of s] in \<open>simp add: update_def del: next_fault_rows\<close>)

lemma update_faults [simp]: "faults (fst (update s p etag mtime)) = tl (faults s)"
  by (cases "next_fault s") (use next_fault_faults [of s] in \<open>simp add: update_def del: next_fault_faults\<close>)

lemma update_count:
  "snd (update s p etag mtime) =
     (if fst (next_fault s) then 0
      else length (filter (\<lambda>r. Path r = p \<and> MTime r < mtime) (rows s)))"
  by (cases "next_fault s") (use next_fault_rows [of s] in \<open>simp add: update_def del: next_fault_rows\<close>)

lemma update_guard_noop:
  assumes "\<forall>r\<in>set (rows s). Path r = p \<longrightarrow> \<not> MTime r < mtime"
  shows "rows (fst (update s p etag mtime)) = rows s" and "snd (update s p etag mtime) = 0"
proof -
  from assms have "map (\<lambda>r. if Path r = p \<and> MTime r < mtime then Updates etag mtime [] r else r) (rows s) = rows s"
    by (intro map_idI) auto
  then show "rows (fst (update s p etag mtime)) = rows s"
    by (simp add: update_rows)
  from assms have "filter (\<lambda>r. Path r = p \<and> MTime r < mtime) (rows s) = []"
    by (auto simp: filter_empty_conv)
  then show "snd (update s p etag mtime) = 0"
    by (simp add: update_count)
qed

lemma getByPath_faults: "faults (fst (getByPath s p)) = tl (faults s)"
  by (cases "next_fault s") (use next_fault_faults [of s] in
      \<open>simp add: getByPath_def Let_def split: list.splits del: next_fault_faults\<close>)


lemma getByPath_err: "snd (snd (getByPath s p)) = Some storeError \<longleftrightarrow> fst (next_fault s)"
  by (cases "next_fault s") (simp add: getByPath_def Let_def split: list.splits)

lemma insert_row_err: "snd (insert_row s i p ck e m) = (if fst (next_fault s) then Some storeError else None)"
  by (cases "next_fault s") (simp add: insert_row_def)

lemma propagateChanges_Return:
  "getPathsTillHome p = Return paths \<Longrightarrow>
   propagateChanges s p etag mtime = (fold (\<lambda>q s'. fst (update s' q etag mtime)) paths s, Return None)"
  by (simp add: propagateChanges_def)

lemma propagateChanges_Panic:
  "getPathsTillHome p = Panic \<Longrightarrow> propagateChanges s p etag mtime = (s, Panic)"
  by (simp add: propagateChanges_def)

lemma getPathsTillHome_Return:
  "5 \<le> length (Split p CHR ''/'') \<Longrightarrow> \<exists>paths. getPathsTillHome p = Return paths"
  by (simp add: getPathsTillHome_def Let_def)

lemma fold_update_faults:
  "faults (fold (\<lambda>q s'. fst (update s' q etag mtime)) qs s) = drop (length qs) (faults s)"
  by (induction qs arbitrary: s) (simp_all add: drop_Suc tl_drop)

lemma Updates_Path [simp]: "Path (Updates etag mtime [] r) = Path r"
  by (simp add: Updates_def)

lemma Updates_ID [simp]: "ID (Updates etag mtime newPath r) = ID r"
  by (simp add: Updates_def)

lemma Updates_Checksum [simp]: "Checksum (Updates etag mtime newPath r) = Checksum r"
  by (simp add: Updates_def)







lemma getRecordsWithPathPrefix_nil_error: "snd (snd (getRecordsWithPathPrefix s p)) = None"
  by (cases "next_fault s") (simp add: getRecordsWithPathPrefix_def)

lemma getRecordsWithPathPrefix_state: "fst (getRecordsWithPathPrefix s p) = snd (next_fault s)"
  by (cases "next_fault s") (simp add: getRecordsWithPathPrefix_def)

lemma getRecordsWithPathPrefix_recs:
  "fst (snd (getRecordsWithPathPrefix s p)) =
     (if fst (next_fault s) then [] else filter (\<lambda>r. sql_like (p @ ''%'') (Path r)) (rows s))"
  by (cases "next_fault s") (use next_fault_rows [of s] in
      \<open>simp add: getRecordsWithPathPrefix_def del: next_fault_rows\<close>)

lemma Commit_Begin [simp]: "Commit (Begin s0) s = s"
  by (simp add: Commit_def Begin_def)

lemma Mv_empty_batch:
  assumes "verify (mv_AccessToken req)"
    and "fst (snd (getRecordsWithPathPrefix s (Clean (Src req)))) = []"
    and "getPathsTillHome (Clean (Dst req)) = Return paths"
  shows "Mv verify s req uuid now =
           (fold (\<lambda>q s'. fst (update s' q uuid (ucast now))) paths (snd (next_fault s)), Return None)"
proof -
  have "getRecordsWithPathPrefix s (Clean (Src req)) = (snd (next_fault s), [], None)"
    using assms(2) getRecordsWithPathPrefix_nil_error [of s "Clean (Src req)"]
      getRecordsWithPathPrefix_state [of s "Clean (Src req)"]
    by (cases "getRecordsWithPathPrefix s (Clean (Src req))") auto
  then show ?thesis
    using assms(1,3) by (simp add: Mv_def Let_def propagateChanges_Return)
qed

lemma Mv_empty_batch_Panic:
  assumes "verify (mv_AccessToken req)"
    and "fst (snd (getRecordsWithPathPrefix s (Clean (Src req)))) = []"
    and "getPathsTillHome (Clean (Dst req)) = Panic"
  shows "Mv verify s req uuid now = (snd (next_fault s), Panic)"
proof -
  have "getRecordsWithPathPrefix s (Clean (Src req)) = (snd (next_fault s), [], None)"
    using assms(2) getRecordsWithPathPrefix_nil_error [of s "Clean (Src req)"]
      getRecordsWithPathPrefix_state [of s "Clean (Src req)"]
    by (cases "getRecordsWithPathPrefix s (Clean (Src req))") auto
  then show ?thesis
    using assms(1,3) by (simp add: Mv_def Let_def propagateChanges_Panic)
qed

lemma update_frame:
  "list_all2 (\<lambda>r r'. ID r' = ID r \<and> Path r' = Path r \<and> Checksum r' = Checksum r
                 \<and> (r' \<noteq> r \<longrightarrow> Path r = q \<and> MTime r < mtime))
     (rows s) (rows (fst (update s q etag mtime)))"
proof (cases "fst (next_fault s)")
  case True
  then show ?thesis by (simp add: update_rows list.rel_refl)
next
  case False
  have "list_all2 (\<lambda>r r'. ID r' = ID r \<and> Path r' = Path r \<and> Checksum r' = Checksum r
                 \<and> (r' \<noteq> r \<longrightarrow> Path r = q \<and> MTime r < mtime))
     (rows s) (map (\<lambda>r. if Path r = q \<and> MTime r < mtime then Updates etag mtime [] r else r) (rows s))"
    unfolding list_all2_map2 by (rule list.rel_refl_strong) simp
  with False show ?thesis by (simp add: update_rows)
qed

lemma fold_update_frame:
  "list_all2 (\<lambda>r r'. ID r' = ID r \<and> Path r' = Path r \<and> Checksum r' = Checksum r
                 \<and> (r' \<noteq> r \<longrightarrow> Path r \<in> set qs \<and> MTime r < mtime))
     (rows s) (rows (fold (\<lambda>q s'. fst (update s' q etag mtime)) qs s))"
proof (induction qs arbitrary: s)
  case Nil
  show ?case by (simp add: list.rel_refl)
next
  case (Cons q qs)
  let ?s1 = "fst (update s q etag mtime)"
  let ?one = "\<lambda>r r'. ID r' = ID r \<and> Path r' = Path r \<and> Checksum r' = Checksum r
                 \<and> (r' \<noteq> r \<longrightarrow> Path r = q \<and> MTime r < mtime)"
  let ?rest = "\<lambda>r r'. ID r' = ID r \<and> Path r' = Path r \<and> Checksum r' = Checksum r
                 \<and> (r' \<noteq> r \<longrightarrow> Path r \<in> set qs \<and> MTime r < mtime)"
  let ?all = "\<lambda>r r'. ID r' = ID r \<and> Path r' = Path r \<and> Checksum r' = Checksum r
                 \<and> (r' \<noteq> r \<longrightarrow> Path r \<in> set (q # qs) \<and> MTime r < mtime)"
  have step: "?all a c" if ab: "?one a b" and bc: "?rest b c" for a b c
  proof (cases "b = a")
    case True
    with bc show ?thesis by (simp)
  next
    case False
    with ab have "Path a = q" "MTime a < mtime" by blast+
    with ab bc show ?thesis by (simp)
  qed
  have "list_all2 ?all (rows s) (rows (fold (\<lambda>q s'. fst (update s' q etag mtime)) qs ?s1))"
    using update_frame [where s = s and q = q and mtime = mtime and etag = etag]
      Cons.IH [of ?s1]
    by (rule list_all2_trans [rotated]) (rule step)
  then show ?case by simp
qed

section \<open>Mv: the rewritten paths\<close>

text \<open>
  Claim C1.  Mv(src, dst) should rewrite the path of every record under \<open>src\<close> by replacing
  the segment-bounded prefix \<open>src\<close> with \<open>dst\<close>, and leave alone a record whose path only
  starts with \<open>src\<close> as a string.  The code does neither.  With the records
  \<^verbatim>\<open>/local/users/d/demo/src/bar\<close> and \<^verbatim>\<open>/local/users/d/demo/srcx\<close> in the store,
  moving \<^verbatim>\<open>/local/users/d/demo/src\<close> to \<^verbatim>\<open>/local/users/d/demo/dst\<close> sends the first
  record to \<^verbatim>\<open>.../dst/b\<close> instead of \<^verbatim>\<open>.../dst/bar\<close> (\<^verbatim>\<open>strings.Trim\<close> strips the
  characters of \<open>src\<close> from both ends of the path), and it moves the second record, which is
  not under \<open>src\<close>, to \<^verbatim>\<open>.../dst/x\<close>.
\<close>

theorem Mv_rewrites_wrong_paths:
  "Mv (\<lambda>t. True)
     \<lparr>rows = [\<lparr>ID = ''1'', Path = ''/local/users/d/demo/src/bar'', Checksum = ''c1'', ETag = ''e0'', MTime = 10\<rparr>,
              \<lparr>ID = ''2'', Path = ''/local/users/d/demo/srcx'', Checksum = ''c2'', ETag = ''e0'', MTime = 10\<rparr>],
      faults = []\<rparr>
     \<lparr>mv_AccessToken = ''t'', Src = ''/local/users/d/demo/src'', Dst = ''/local/users/d/demo/dst''\<rparr>
     ''e1'' 100
   = (\<lparr>rows = [\<lparr>ID = ''1'', Path = ''/local/users/d/demo/dst/b'', Checksum = ''c1'', ETag = ''e1'', MTime = 100\<rparr>,
               \<lparr>ID = ''2'', Path = ''/local/users/d/demo/dst/x'', Checksum = ''c2'', ETag = ''e1'', MTime = 100\<rparr>],
       faults = []\<rparr>,
      Return None)"
  by code_simp

section \<open>Mv: a failing row update\<close>

text \<open>
  Claim C2.  When the update of one matched record fails, Mv should roll the whole batch back
  and leave the store as it was.  The code sends every update through \<^verbatim>\<open>s.db\<close>, not through
  the transaction handle, so the rollback has nothing to undo.  Here two records match, the
  lookup and the first update succeed and the second update fails: Mv returns the error, the
  first record stays at its new path and the second at its old one.
\<close>

theorem Mv_failed_update_leaves_partial_rename:
  "Mv (\<lambda>t. True)
     \<lparr>rows = [\<lparr>ID = ''1'', Path = ''/local/users/d/demo/src/x'', Checksum = ''c1'', ETag = ''e0'', MTime = 10\<rparr>,
              \<lparr>ID = ''2'', Path = ''/local/users/d/demo/src/y'', Checksum = ''c2'', ETag = ''e0'', MTime = 10\<rparr>],
      faults = [False, False, True]\<rparr>
     \<lparr>mv_AccessToken = ''t'', Src = ''/local/users/d/demo/src'', Dst = ''/local/users/d/demo/dst''\<rparr>
     ''e1'' 100
   = (\<lparr>rows = [\<lparr>ID = ''1'', Path = ''/local/users/d/demo/dst/x'', Checksum = ''c1'', ETag = ''e1'', MTime = 100\<rparr>,
               \<lparr>ID = ''2'', Path = ''/local/users/d/demo/src/y'', Checksum = ''c2'', ETag = ''e0'', MTime = 10\<rparr>],
       faults = []\<rparr>,
      Return (Some storeError))"
  by code_simp

section \<open>Mv: no matching record\<close>

text \<open>
  Claim C9, as stated: when \<open>src\<close> matches no record, Mv returns success and changes no
  record's path, etag or mtime.  It fails on the code: Mv propagates the new fingerprint from
  \<open>dst\<close> whether or not a record was moved.  Here no record matches
  \<^verbatim>\<open>/local/users/d/demo/none\<close>, and the record of the home directory
  \<^verbatim>\<open>/local/users/d/demo\<close> gets the new etag and mtime.
\<close>

theorem Mv_no_match_changes_ancestor_fingerprint:
  "fst (snd (getRecordsWithPathPrefix
       \<lparr>rows = [\<lparr>ID = ''1'', Path = ''/local/users/d/demo'', Checksum = [], ETag = ''e0'', MTime = 10\<rparr>], faults = []\<rparr>
       (Clean ''/local/users/d/demo/none''))) = []
   \<and> Mv (\<lambda>t. True)
     \<lparr>rows = [\<lparr>ID = ''1'', Path = ''/local/users/d/demo'', Checksum = [], ETag = ''e0'', MTime = 10\<rparr>], faults = []\<rparr>
     \<lparr>mv_AccessToken = ''t'', Src = ''/local/users/d/demo/none'', Dst = ''/local/users/d/demo/dst''\<rparr>
     ''e1'' 100
   = (\<lparr>rows = [\<lparr>ID = ''1'', Path = ''/local/users/d/demo'', Checksum = [], ETag = ''e1'', MTime = 100\<rparr>], faults = []\<rparr>, Return None)"
  by code_simp

text \<open>
  Claim C9, amended.  When \<open>src\<close> matches no record and \<open>dst\<close> has at least five
  slash-separated tokens (getPathsTillHome returns a list), Mv returns success, whatever the
  store's failures; every record keeps its id, path and checksum, and a record is changed at
  all only when its path is in the list resolved for \<open>dst\<close> and its mtime is older than
  the new one.
\<close>

theorem Mv_no_match_frame:
  assumes "verify (mv_AccessToken req)"
    and "\<forall>r\<in>set (rows s). \<not> sql_like (Clean (Src req) @ ''%'') (Path r)"
    and "getPathsTillHome (Clean (Dst req)) = Return paths"
  shows "snd (Mv verify s req uuid now) = Return None
     \<and> list_all2 (\<lambda>r r'. ID r' = ID r \<and> Path r' = Path r \<and> Checksum r' = Checksum r
                    \<and> (r' \<noteq> r \<longrightarrow> Path r \<in> set paths \<and> MTime r < ucast now))
         (rows s) (rows (fst (Mv verify s req uuid now)))"
proof -
  from assms(2) have "fst (snd (getRecordsWithPathPrefix s (Clean (Src req)))) = []"
    by (auto simp: getRecordsWithPathPrefix_recs filter_empty_conv)
  from assms(1) this assms(3) have mv:
    "Mv verify s req uuid now =
       (fold (\<lambda>q s'. fst (update s' q uuid (ucast now))) paths (snd (next_fault s)), Return None)"
    by (rule Mv_empty_batch [where verify = verify])
  have "list_all2 (\<lambda>r r'. ID r' = ID r \<and> Path r' = Path r \<and> Checksum r' = Checksum r
                    \<and> (r' \<noteq> r \<longrightarrow> Path r \<in> set paths \<and> MTime r < ucast now))
         (rows (snd (next_fault s)))
         (rows (fold (\<lambda>q s'. fst (update s' q uuid (ucast now))) paths (snd (next_fault s))))"
    by (rule fold_update_frame)
  with mv show ?thesis by simp
qed

theorem Mv_no_match_frame_witness:
  "list_all (\<lambda>r. \<not> sql_like (Clean ''/local/users/d/demo/none'' @ ''%'') (Path r))
      [\<lparr>ID = ''1'', Path = ''/local/users/d/demo'', Checksum = [], ETag = ''e0'', MTime = 10\<rparr>]
   \<and> getPathsTillHome (Clean ''/local/users/d/demo/dst'') = Return [''/local/users/d/demo'', ''/local/users/d/demo/dst'']
   \<and> snd (Mv (\<lambda>t. True)
        \<lparr>rows = [\<lparr>ID = ''1'', Path = ''/local/users/d/demo'', Checksum = [], ETag = ''e0'', MTime = 10\<rparr>], faults = []\<rparr>
        \<lparr>mv_AccessToken = ''t'', Src = ''/local/users/d/demo/none'', Dst = ''/local/users/d/demo/dst''\<rparr>
        ''e1'' 100) = Return None
   \<and> list_all2 (\<lambda>r r'. ID r' = ID r \<and> Path r' = Path r \<and> Checksum r' = Checksum r
                    \<and> (r' \<noteq> r \<longrightarrow> Path r \<in> set [''/local/users/d/demo'', ''/local/users/d/demo/dst''] \<and> MTime r < ucast (100 :: 64 word)))
        [\<lparr>ID = ''1'', Path = ''/local/users/d/demo'', Checksum = [], ETag = ''e0'', MTime = 10\<rparr>]
        (rows (fst (Mv (\<lambda>t. True)
        \<lparr>rows = [\<lparr>ID = ''1'', Path = ''/local/users/d/demo'', Checksum = [], ETag = ''e0'', MTime = 10\<rparr>], faults = []\<rparr>
        \<lparr>mv_AccessToken = ''t'', Src = ''/local/users/d/demo/none'', Dst = ''/local/users/d/demo/dst''\<rparr>
        ''e1'' 100)))"
proof -
  let ?s = "\<lparr>rows = [\<lparr>ID = ''1'', Path = ''/local/users/d/demo'', Checksum = [], ETag = ''e0'', MTime = 10\<rparr>], faults = []\<rparr>"
  let ?req = "\<lparr>mv_AccessToken = ''t'', Src = ''/local/users/d/demo/none'', Dst = ''/local/users/d/demo/dst''\<rparr>"
  have h0: "list_all (\<lambda>r. \<not> sql_like (Clean ''/local/users/d/demo/none'' @ ''%'') (Path r))
      [\<lparr>ID = ''1'', Path = ''/local/users/d/demo'', Checksum = [], ETag = ''e0'', MTime = 10\<rparr>]"
    by code_simp
  have h1: "(\<lambda>t. True) (mv_AccessToken ?req)" by simp
  from h0 have h2: "\<forall>r\<in>set (rows ?s). \<not> sql_like (Clean (Src ?req) @ ''%'') (Path r)"
    by simp
  have h3: "getPathsTillHome (Clean (Dst ?req)) = Return [''/local/users/d/demo'', ''/local/users/d/demo/dst'']"
    by code_simp
  from Mv_no_match_frame [where verify = "\<lambda>t. True", OF h1 h2 h3, of "''e1''" 100] h0 h3
  show ?thesis by simp
qed

section \<open>Mv: a failing prefix lookup\<close>

text \<open>
  getRecordsWithPathPrefix returns a nil error also when the query fails
  (\<open>getRecordsWithPathPrefix_nil_error\<close>), and a failed lookup makes Mv run with an empty
  batch: no record is rewritten and only the propagation from \<open>dst\<close> takes place.  When
  \<open>dst\<close> has at least five tokens Mv then returns success.
\<close>

lemma Mv_failed_lookup_runs_empty_batch:
  "snd (snd (getRecordsWithPathPrefix s p)) = None
   \<and> (verify (mv_AccessToken req) \<longrightarrow> faults s = True # fs \<longrightarrow>
        getPathsTillHome (Clean (Dst req)) = Return paths \<longrightarrow>
        Mv verify s req uuid now =
          (fold (\<lambda>q s'. fst (update s' q uuid (ucast now))) paths (s\<lparr>faults := fs\<rparr>), Return None))"
proof (intro conjI impI)
  show "snd (snd (getRecordsWithPathPrefix s p)) = None"
    by (rule getRecordsWithPathPrefix_nil_error)
next
  assume v: "verify (mv_AccessToken req)" and f: "faults s = True # fs"
    and p: "getPathsTillHome (Clean (Dst req)) = Return paths"
  from f have nf: "next_fault s = (True, s\<lparr>faults := fs\<rparr>)"
    by (simp add: next_fault_def)
  then have "fst (snd (getRecordsWithPathPrefix s (Clean (Src req)))) = []"
    by (simp add: getRecordsWithPathPrefix_recs)
  with v p have "Mv verify s req uuid now =
       (fold (\<lambda>q s'. fst (update s' q uuid (ucast now))) paths (snd (next_fault s)), Return None)"
    by (intro Mv_empty_batch [where verify = verify])
  with nf show "Mv verify s req uuid now =
          (fold (\<lambda>q s'. fst (update s' q uuid (ucast now))) paths (s\<lparr>faults := fs\<rparr>), Return None)"
    by simp
qed

text \<open>
  Claim C10.  After a failed prefix lookup Mv should behave as if no record matched and
  return success.  With the destination \<^verbatim>\<open>/local\<close> the lookup fails, no record is
  rewritten, and the propagation from the destination panics in getPathsTillHome: Mv does
  not return.
\<close>

theorem Mv_failed_lookup_short_dst_panics:
  "Mv (\<lambda>t. True)
     \<lparr>rows = [\<lparr>ID = ''1'', Path = ''/local/users/d/demo/src/x'', Checksum = [], ETag = ''e0'', MTime = 10\<rparr>],
      faults = [True]\<rparr>
     \<lparr>mv_AccessToken = ''t'', Src = ''/local/users/d/demo/src'', Dst = ''/local''\<rparr>
     ''e1'' 100
   = (\<lparr>rows = [\<lparr>ID = ''1'', Path = ''/local/users/d/demo/src/x'', Checksum = [], ETag = ''e0'', MTime = 10\<rparr>],
       faults = []\<rparr>,
      Panic)"
  by code_simp

section \<open>The path hierarchy\<close>

text \<open>
  Claim C3.  The list of ancestors of a path should end at the parent of the path and leave
  the path itself out.  For the path of the source's own example,
  \<^verbatim>\<open>/local/users/d/demo/photos/1.png\<close>, getPathsTillHome returns the home directory, the
  parent and then the path itself as the last element.
\<close>

theorem getPathsTillHome_includes_path_itself:
  "getPathsTillHome ''/local/users/d/demo/photos/1.png'' =
     Return [''/local/users/d/demo'', ''/local/users/d/demo/photos'',
             ''/local/users/d/demo/photos/1.png'']"
  by code_simp

text \<open>
  Claim C5.  A path above the home directory should be rejected with an InvalidPath failure
  and without a panic.  \<^verbatim>\<open>/local/users/d\<close> splits into four tokens, so taking the first
  five is out of range and getPathsTillHome panics.
\<close>

theorem getPathsTillHome_short_path_panics:
  "getPathsTillHome ''/local/users/d'' = Panic"
  by code_simp

section \<open>Rm\<close>

text \<open>
  Claim C6.  Rm(p) should delete only records whose path has \<open>p\<close> as a segment-bounded
  prefix, and leave a record whose path only begins with \<open>p\<close> as a string.  Removing
  \<^verbatim>\<open>/local/users/d/demo/b\<close> deletes the older record at \<^verbatim>\<open>/local/users/d/demo/bc\<close>.
\<close>

theorem Rm_deletes_sibling_with_common_string_prefix:
  "Rm (\<lambda>t. True)
     \<lparr>rows = [\<lparr>ID = ''1'', Path = ''/local/users/d/demo/bc'', Checksum = ''c1'', ETag = ''e0'', MTime = 10\<rparr>],
      faults = []\<rparr>
     \<lparr>rm_AccessToken = ''t'', rm_Path = ''/local/users/d/demo/b''\<rparr> ''e1'' 100
   = (\<lparr>rows = [], faults = []\<rparr>, Return None)"
  by code_simp

section \<open>The monotonicity guard of update\<close>

text \<open>
  Claim C8.  When every record stored at path \<open>p\<close> has an mtime newer than the one supplied,
  update changes no row (so no etag and no mtime) and reports zero affected rows.
\<close>

theorem update_older_mtime_is_noop:
  "\<forall>r\<in>set (rows s). Path r = p \<longrightarrow> mtime < MTime r \<Longrightarrow>
   rows (fst (update s p etag mtime)) = rows s \<and> snd (update s p etag mtime) = 0"
  using update_guard_noop [of s p mtime etag] by (auto dest: less_asym)

theorem update_older_mtime_is_noop_witness:
  "(5 :: 32 word) < MTime \<lparr>ID = ''1'', Path = ''/local/users/d/demo'', Checksum = [], ETag = ''e0'', MTime = 10\<rparr>
   \<and> rows (fst (update \<lparr>rows = [\<lparr>ID = ''1'', Path = ''/local/users/d/demo'', Checksum = [], ETag = ''e0'', MTime = 10\<rparr>], faults = []\<rparr>
                  ''/local/users/d/demo'' ''e1'' 5))
       = [\<lparr>ID = ''1'', Path = ''/local/users/d/demo'', Checksum = [], ETag = ''e0'', MTime = 10\<rparr>]
   \<and> snd (update \<lparr>rows = [\<lparr>ID = ''1'', Path = ''/local/users/d/demo'', Checksum = [], ETag = ''e0'', MTime = 10\<rparr>], faults = []\<rparr>
             ''/local/users/d/demo'' ''e1'' 5) = 0"
  using update_older_mtime_is_noop
    [of "\<lparr>rows = [\<lparr>ID = ''1'', Path = ''/local/users/d/demo'', Checksum = [], ETag = ''e0'', MTime = 10\<rparr>], faults = []\<rparr>"
        "''/local/users/d/demo''" 5 "''e1''"]
  by simp

section \<open>Put and the propagation to the ancestors\<close>




text \<open>
  When the access token parses, the lookup and the upsert do not fail and the path has at
  least five tokens, Put returns success whatever the store does during the propagation.
\<close>

lemma Put_returns_success_under_home:
  assumes "verify (put_AccessToken req)"
    and "True \<notin> set (take 2 (faults s))"
    and "5 \<le> length (Split (Clean (put_Path req)) CHR ''/'')"
  shows "snd (Put verify s req uuid_etag uuid_id now) = Return None"
proof -
  let ?p = "Clean (put_Path req)"
  from assms(3) obtain paths where paths: "getPathsTillHome ?p = Return paths"
    using getPathsTillHome_Return by blast
  obtain s1 r e where g: "getByPath s ?p = (s1, r, e)" by (cases "getByPath s ?p") auto
  from assms(2) have nf1: "\<not> fst (next_fault s)"
    by (cases "faults s") (auto simp: next_fault_fst)
  with g have e: "e \<noteq> Some storeError" using getByPath_err [of s ?p] by auto
  have e': "e = None \<or> e = Some RecordNotFound"
    using g nf1 by (auto simp: getByPath_def Let_def split: prod.splits if_splits list.splits)
  from g have f1: "faults s1 = tl (faults s)" using getByPath_faults [of s ?p] by simp
  with assms(2) have nf2: "\<not> fst (next_fault s1)"
    by (cases "faults s"; cases "tl (faults s)") (auto simp: next_fault_fst)
  then have ins: "\<And>i. snd (insert_row s1 i ?p (put_Checksum req) uuid_etag (ucast now)) = None"
    by (simp add: insert_row_err)
  show ?thesis
    using assms(1) g e' ins paths
    by (auto simp: Put_def Let_def propagateChanges_Return split: prod.splits option.splits)
       (metis snd_conv option.distinct(1))+
qed

text \<open>
  Claim C7.  A Put whose upsert succeeds should return success whatever happens during the
  propagation.  For the path \<^verbatim>\<open>/a\<close> the upsert stores the record, and the
  propagation then panics in getPathsTillHome: Put does not return.
\<close>

theorem Put_short_path_panics_after_upsert:
  "Put (\<lambda>t. True) \<lparr>rows = [], faults = []\<rparr>
     \<lparr>put_AccessToken = ''t'', put_Path = ''/a'', put_Checksum = ''ck''\<rparr> ''e1'' ''1'' 100
   = (\<lparr>rows = [\<lparr>ID = ''1'', Path = ''/a'', Checksum = ''ck'', ETag = ''e1'', MTime = 100\<rparr>], faults = []\<rparr>,
      Panic)"
  by code_simp

end
